theory Spec2Isabelle
  imports Main
begin

section \<open>Mergington High School API: the account store and the activity roster\<close>

text \<open>
  The program is one Python module, \<^verbatim>\<open>src/app.py\<close>. It keeps two module-level
  dictionaries, \<^verbatim>\<open>users\<close> and \<^verbatim>\<open>activities\<close>, and eight request handlers that
  read and mutate them. In the file the request models and the five account handlers
  (lines 33 to 101) stand between the opening brace of the \<^verbatim>\<open>activities\<close> literal
  and its first entry; the embedding takes every handler as the module-level function
  its decorator and body describe, and the literal as the nine entries of lines 102 to 155.

  Each handler becomes a function from the store to a pair: what the handler returns or
  raises, and the store it leaves behind. The store is returned on the error branch too,
  so that what a raising handler has done to the dictionaries is part of the model.
\<close>

subsection \<open>Strings: \<^verbatim>\<open>str.title\<close>\<close>

text \<open>
  \<^verbatim>\<open>str.title()\<close> upper-cases a cased character that follows an uncased one (or
  starts the string) and lower-cases a cased character that follows a cased one. A
  \<^typ>\<open>char\<close> is a byte; the letters are the ASCII letters, every other byte is uncased.
\<close>

definition is_lower :: "char \<Rightarrow> bool" where
  "is_lower c = (97 \<le> (of_char c :: nat) \<and> (of_char c :: nat) \<le> 122)"

definition is_upper :: "char \<Rightarrow> bool" where
  "is_upper c = (65 \<le> (of_char c :: nat) \<and> (of_char c :: nat) \<le> 90)"

definition upper_char :: "char \<Rightarrow> char" where
  "upper_char c = (if is_lower c then char_of ((of_char c :: nat) - 32) else c)"

definition lower_char :: "char \<Rightarrow> char" where
  "lower_char c = (if is_upper c then char_of ((of_char c :: nat) + 32) else c)"

fun title_from :: "bool \<Rightarrow> string \<Rightarrow> string" where
  "title_from prev [] = []"
| "title_from prev (c # cs) =
     (if is_lower c \<or> is_upper c
      then (if prev then lower_char c else upper_char c) # title_from True cs
      else c # title_from False cs)"

definition title :: "string \<Rightarrow> string" where
  "title = title_from False"

subsection \<open>Data\<close>

text \<open>The stored user dictionary \<^verbatim>\<open>{"name", "password", "profile": {"name", "bio"}}\<close>.\<close>

record profile =
  pname :: string
  bio :: string

record user =
  name :: string
  password :: string
  profile :: profile

text \<open>The request models \<^verbatim>\<open>UserRegister\<close>, \<^verbatim>\<open>UserLogin\<close> and \<^verbatim>\<open>UserProfile\<close>.\<close>

record UserRegister =
  ur_email :: string
  ur_name :: string
  ur_password :: string

record UserLogin =
  ul_email :: string
  ul_password :: string

record UserProfile =
  up_name :: "string option"
  up_bio :: "string option"

text \<open>An entry of \<^verbatim>\<open>activities\<close>.\<close>

record activity =
  description :: string
  schedule :: string
  max_participants :: int
  participants :: "string list"

text \<open>The two module-level dictionaries.\<close>

record store =
  users :: "string \<rightharpoonup> (string \<rightharpoonup> user)"
  activities :: "string \<rightharpoonup> activity"

text \<open>
  What a handler raises: \<^verbatim>\<open>HTTPException(status_code, detail)\<close>, or the
  \<^verbatim>\<open>AttributeError\<close> of reading an attribute that the object does not have.
\<close>

datatype error =
  HTTPException int string
| AttributeError string

text \<open>
  What a handler returns: \<^verbatim>\<open>{"message": m}\<close>, \<^verbatim>\<open>{"message": m, "profile": p}\<close>,
  a profile dictionary, or the activities dictionary.
\<close>

datatype response =
  Message string
| MessageProfile string profile
| Profile profile
| Roster "string \<rightharpoonup> activity"

type_synonym outcome = "(error + response) \<times> store"

subsection \<open>The initial store\<close>

definition init_activities :: "string \<rightharpoonup> activity" where
  "init_activities =
    [''Chess Club'' \<mapsto>
       \<lparr>description = ''Learn strategies and compete in chess tournaments'',
        schedule = ''Fridays, 3:30 PM - 5:00 PM'',
        max_participants = 12,
        participants = [''michael@mergington.edu'', ''daniel@mergington.edu'']\<rparr>,
     ''Programming Class'' \<mapsto>
       \<lparr>description = ''Learn programming fundamentals and build software projects'',
        schedule = ''Tuesdays and Thursdays, 3:30 PM - 4:30 PM'',
        max_participants = 20,
        participants = [''emma@mergington.edu'', ''sophia@mergington.edu'']\<rparr>,
     ''Gym Class'' \<mapsto>
       \<lparr>description = ''Physical education and sports activities'',
        schedule = ''Mondays, Wednesdays, Fridays, 2:00 PM - 3:00 PM'',
        max_participants = 30,
        participants = [''john@mergington.edu'', ''olivia@mergington.edu'']\<rparr>,
     ''Soccer Team'' \<mapsto>
       \<lparr>description = ''Join the school soccer team and compete in matches'',
        schedule = ''Tuesdays and Thursdays, 4:00 PM - 5:30 PM'',
        max_participants = 22,
        participants = [''liam@mergington.edu'', ''noah@mergington.edu'']\<rparr>,
     ''Basketball Team'' \<mapsto>
       \<lparr>description = ''Practice and play basketball with the school team'',
        schedule = ''Wednesdays and Fridays, 3:30 PM - 5:00 PM'',
        max_participants = 15,
        participants = [''ava@mergington.edu'', ''mia@mergington.edu'']\<rparr>,
     ''Art Club'' \<mapsto>
       \<lparr>description = ''Explore your creativity through painting and drawing'',
        schedule = ''Thursdays, 3:30 PM - 5:00 PM'',
        max_participants = 15,
        participants = [''amelia@mergington.edu'', ''harper@mergington.edu'']\<rparr>,
     ''Drama Club'' \<mapsto>
       \<lparr>description = ''Act, direct, and produce plays and performances'',
        schedule = ''Mondays and Wednesdays, 4:00 PM - 5:30 PM'',
        max_participants = 20,
        participants = [''ella@mergington.edu'', ''scarlett@mergington.edu'']\<rparr>,
     ''Math Club'' \<mapsto>
       \<lparr>description = ''Solve challenging problems and participate in math competitions'',
        schedule = ''Tuesdays, 3:30 PM - 4:30 PM'',
        max_participants = 10,
        participants = [''james@mergington.edu'', ''benjamin@mergington.edu'']\<rparr>,
     ''Debate Team'' \<mapsto>
       \<lparr>description = ''Develop public speaking and argumentation skills'',
        schedule = ''Fridays, 4:00 PM - 5:30 PM'',
        max_participants = 12,
        participants = [''charlotte@mergington.edu'', ''henry@mergington.edu'']\<rparr>]"

definition init_users :: "string \<rightharpoonup> (string \<rightharpoonup> user)" where
  "init_users = [''students'' \<mapsto> Map.empty, ''clubs'' \<mapsto> Map.empty]"

definition init_store :: store where
  "init_store = \<lparr>users = init_users, activities = init_activities\<rparr>"

subsection \<open>Account handlers\<close>

text \<open>
  \<^verbatim>\<open>users[user_type].get(email)\<close> is \<^verbatim>\<open>None\<close> or a stored dictionary; a stored
  dictionary always has its three keys, so \<^verbatim>\<open>not user\<close> holds exactly for \<^verbatim>\<open>None\<close>.
\<close>

definition register_user :: "string \<Rightarrow> UserRegister \<Rightarrow> store \<Rightarrow> outcome" where
  "register_user user_type u s =
    (case users s user_type of
       None \<Rightarrow> (Inl (HTTPException 400 ''Invalid user type''), s)
     | Some coll \<Rightarrow>
        (case coll (ur_email u) of
           Some _ \<Rightarrow> (Inl (HTTPException 400 ''User already exists''), s)
         | None \<Rightarrow>
            (Inr (Message (title user_type @ '' registered successfully'')),
             s\<lparr>users := (users s)(user_type \<mapsto>
                  coll(ur_email u \<mapsto>
                    \<lparr>name = ur_name u,
                     password = ur_password u,
                     profile = \<lparr>pname = ur_name u, bio = ''''\<rparr>\<rparr>))\<rparr>)))"

definition login_user :: "string \<Rightarrow> UserLogin \<Rightarrow> store \<Rightarrow> outcome" where
  "login_user user_type creds s =
    (case users s user_type of
       None \<Rightarrow> (Inl (HTTPException 400 ''Invalid user type''), s)
     | Some coll \<Rightarrow>
        (case coll (ul_email creds) of
           None \<Rightarrow> (Inl (HTTPException 401 ''Invalid credentials''), s)
         | Some usr \<Rightarrow>
            (if password usr \<noteq> ul_password creds
             then (Inl (HTTPException 401 ''Invalid credentials''), s)
             else (Inr (MessageProfile (title user_type @ '' logged in'') (profile usr)), s))))"

definition get_profile :: "string \<Rightarrow> string \<Rightarrow> store \<Rightarrow> outcome" where
  "get_profile user_type email s =
    (case users s user_type of
       None \<Rightarrow> (Inl (HTTPException 400 ''Invalid user type''), s)
     | Some coll \<Rightarrow>
        (case coll email of
           None \<Rightarrow> (Inl (HTTPException 404 ''User not found''), s)
         | Some usr \<Rightarrow> (Inr (Profile (profile usr)), s)))"

text \<open>The two assignments of \<^verbatim>\<open>update_profile\<close>, each under its \<^verbatim>\<open>is not None\<close> test.\<close>

definition set_fields :: "UserProfile \<Rightarrow> profile \<Rightarrow> profile" where
  "set_fields p q =
    (let q1 = (case up_name p of None \<Rightarrow> q | Some n \<Rightarrow> q\<lparr>pname := n\<rparr>)
     in (case up_bio p of None \<Rightarrow> q1 | Some b \<Rightarrow> q1\<lparr>bio := b\<rparr>))"

definition update_profile :: "string \<Rightarrow> string \<Rightarrow> UserProfile \<Rightarrow> store \<Rightarrow> outcome" where
  "update_profile user_type email p s =
    (case users s user_type of
       None \<Rightarrow> (Inl (HTTPException 400 ''Invalid user type''), s)
     | Some coll \<Rightarrow>
        (case coll email of
           None \<Rightarrow> (Inl (HTTPException 404 ''User not found''), s)
         | Some usr \<Rightarrow>
            (let q = set_fields p (profile usr)
             in (Inr (MessageProfile ''Profile updated'' q),
                 s\<lparr>users := (users s)(user_type \<mapsto> coll(email \<mapsto> usr\<lparr>profile := q\<rparr>))\<rparr>))))"

text \<open>
  Reading an attribute of a \<^verbatim>\<open>UserLogin\<close> object: the class declares \<^verbatim>\<open>email\<close> and
  \<^verbatim>\<open>password\<close> and nothing else (a key of the request body that is not declared is
  dropped when the object is built), so any other attribute raises \<^verbatim>\<open>AttributeError\<close>.
\<close>

definition UserLogin_getattr :: "UserLogin \<Rightarrow> string \<Rightarrow> error + string" where
  "UserLogin_getattr d a =
    (if a = ''email'' then Inr (ul_email d)
     else if a = ''password'' then Inr (ul_password d)
     else Inl (AttributeError a))"

text \<open>
  \<^verbatim>\<open>change_password\<close> takes \<^verbatim>\<open>data: UserLogin\<close> and ends with
  \<^verbatim>\<open>user["password"] = data.name\<close>: the right-hand side is evaluated first, and the
  store is written only if it yields a value.
\<close>

definition change_password :: "string \<Rightarrow> string \<Rightarrow> UserLogin \<Rightarrow> store \<Rightarrow> outcome" where
  "change_password user_type email d s =
    (case users s user_type of
       None \<Rightarrow> (Inl (HTTPException 400 ''Invalid user type''), s)
     | Some coll \<Rightarrow>
        (case coll email of
           None \<Rightarrow> (Inl (HTTPException 404 ''User not found''), s)
         | Some usr \<Rightarrow>
            (if password usr \<noteq> ul_password d
             then (Inl (HTTPException 401 ''Current password incorrect''), s)
             else (case UserLogin_getattr d ''name'' of
                     Inl e \<Rightarrow> (Inl e, s)
                   | Inr new \<Rightarrow>
                      (Inr (Message ''Password changed''),
                       s\<lparr>users := (users s)(user_type \<mapsto>
                            coll(email \<mapsto> usr\<lparr>password := new\<rparr>))\<rparr>)))))"

subsection \<open>Roster handlers\<close>

definition get_activities :: "store \<Rightarrow> outcome" where
  "get_activities s = (Inr (Roster (activities s)), s)"

text \<open>\<^verbatim>\<open>list.append\<close> adds at the end; \<^verbatim>\<open>list.remove\<close> deletes the first equal element.\<close>

definition signup_for_activity :: "string \<Rightarrow> string \<Rightarrow> store \<Rightarrow> outcome" where
  "signup_for_activity activity_name email s =
    (case activities s activity_name of
       None \<Rightarrow> (Inl (HTTPException 404 ''Activity not found''), s)
     | Some act \<Rightarrow>
        (if email \<in> set (participants act)
         then (Inl (HTTPException 400 ''Student is already signed up''), s)
         else (Inr (Message (''Signed up '' @ email @ '' for '' @ activity_name)),
               s\<lparr>activities := (activities s)(activity_name \<mapsto>
                    act\<lparr>participants := participants act @ [email]\<rparr>)\<rparr>)))"

definition unregister_from_activity :: "string \<Rightarrow> string \<Rightarrow> store \<Rightarrow> outcome" where
  "unregister_from_activity activity_name email s =
    (case activities s activity_name of
       None \<Rightarrow> (Inl (HTTPException 404 ''Activity not found''), s)
     | Some act \<Rightarrow>
        (if email \<notin> set (participants act)
         then (Inl (HTTPException 400 ''Student is not signed up for this activity''), s)
         else (Inr (Message (''Unregistered '' @ email @ '' from '' @ activity_name)),
               s\<lparr>activities := (activities s)(activity_name \<mapsto>
                    act\<lparr>participants := remove1 email (participants act)\<rparr>)\<rparr>)))"

subsection \<open>Requests and runs\<close>

text \<open>
  One constructor for each route, named as the operation it serves; \<open>exec\<close> calls the
  handler of the route, and \<open>run\<close> serves a list of requests one after the other, each on
  the store the one before has left.
\<close>

datatype request =
  Register string UserRegister
| Login string UserLogin
| GetProfile string string
| UpdateProfile string string UserProfile
| ChangePassword string string UserLogin
| ListActivities
| SignUp string string
| Unregister string string

fun exec :: "request \<Rightarrow> store \<Rightarrow> outcome" where
  "exec (Register t u) s = register_user t u s"
| "exec (Login t c) s = login_user t c s"
| "exec (GetProfile t e) s = get_profile t e s"
| "exec (UpdateProfile t e p) s = update_profile t e p s"
| "exec (ChangePassword t e d) s = change_password t e d s"
| "exec ListActivities s = get_activities s"
| "exec (SignUp a e) s = signup_for_activity a e s"
| "exec (Unregister a e) s = unregister_from_activity a e s"

fun run :: "request list \<Rightarrow> store \<Rightarrow> store" where
  "run [] s = s"
| "run (r # rs) s = run rs (snd (exec r s))"

fun roster_request :: "request \<Rightarrow> bool" where
  "roster_request (SignUp _ _) = True"
| "roster_request (Unregister _ _) = True"
| "roster_request _ = False"

fun update_request :: "request \<Rightarrow> bool" where
  "update_request (UpdateProfile _ _ _) = True"
| "update_request _ = False"

text \<open>
  The names the specification gives to the failures, read off the status and detail that
  the handlers raise. Both 401 details are the credential failure.
\<close>

datatype failure =
  InvalidCollection | DuplicateUser | InvalidCredentials | UserNotFound
| ActivityNotFound | AlreadyRegistered | NotRegistered

definition failure_of :: "error \<Rightarrow> failure option" where
  "failure_of e =
    (if e = HTTPException 400 ''Invalid user type'' then Some InvalidCollection
     else if e = HTTPException 400 ''User already exists'' then Some DuplicateUser
     else if e = HTTPException 401 ''Invalid credentials'' then Some InvalidCredentials
     else if e = HTTPException 401 ''Current password incorrect'' then Some InvalidCredentials
     else if e = HTTPException 404 ''User not found'' then Some UserNotFound
     else if e = HTTPException 404 ''Activity not found'' then Some ActivityNotFound
     else if e = HTTPException 400 ''Student is already signed up'' then Some AlreadyRegistered
     else if e = HTTPException 400 ''Student is not signed up for this activity''
       then Some NotRegistered
     else None)"

text \<open>
  Eight sign-ups for the Math Club, which starts with two participants and a
  \<^verbatim>\<open>max_participants\<close> of 10: after them the list has ten entries.
\<close>

definition crowd :: "request list" where
  "crowd = map (SignUp ''Math Club'')
     [''s1@mergington.edu'', ''s2@mergington.edu'', ''s3@mergington.edu'',
      ''s4@mergington.edu'', ''s5@mergington.edu'', ''s6@mergington.edu'',
      ''s7@mergington.edu'', ''s8@mergington.edu'']"

text \<open>A student to evaluate the account handlers on, and the store after her registration.\<close>

definition alice :: UserRegister where
  "alice = \<lparr>ur_email = ''alice@mergington.edu'', ur_name = ''Alice'', ur_password = ''old''\<rparr>"

definition alice_store :: store where
  "alice_store = snd (register_user ''students'' alice init_store)"

text \<open>
  Two lists keep the same order: the entries of the first that are in the second, in the
  order of the first, are the entries of the second that are in the first, in the order
  of the second.
\<close>

definition kept_order :: "'a list \<Rightarrow> 'a list \<Rightarrow> bool" where
  "kept_order xs ys = (filter (\<lambda>x. x \<in> set ys) xs = filter (\<lambda>y. y \<in> set xs) ys)"

text \<open>Two profile updates for Alice, and a sign-up followed by an unregistration.\<close>

definition rename_alice :: "request list" where
  "rename_alice =
     [UpdateProfile ''students'' ''alice@mergington.edu'' \<lparr>up_name = Some ''Al'', up_bio = None\<rparr>,
      UpdateProfile ''students'' ''alice@mergington.edu''
        \<lparr>up_name = None, up_bio = Some ''chess player''\<rparr>]"

definition swap_chess :: "request list" where
  "swap_chess =
     [SignUp ''Chess Club'' ''x@y.edu'', Unregister ''Chess Club'' ''michael@mergington.edu'']"

section \<open>Evaluation lemmas\<close>

lemma title_students: "title ''students'' = ''Students''" by code_simp
lemma title_clubs: "title ''clubs'' = ''Clubs''" by code_simp

lemma init_chess:
  "activities init_store ''Chess Club'' =
     Some \<lparr>description = ''Learn strategies and compete in chess tournaments'',
        schedule = ''Fridays, 3:30 PM - 5:00 PM'',
        max_participants = 12,
        participants = [''michael@mergington.edu'', ''daniel@mergington.edu'']\<rparr>"
  by (simp add: init_store_def init_activities_def)

lemma init_math:
  "activities init_store ''Math Club'' =
     Some \<lparr>description = ''Solve challenging problems and participate in math competitions'',
        schedule = ''Tuesdays, 3:30 PM - 4:30 PM'',
        max_participants = 10,
        participants = [''james@mergington.edu'', ''benjamin@mergington.edu'']\<rparr>"
  by (simp add: init_store_def init_activities_def)

lemma init_no_knitting: "activities init_store ''Knitting'' = None"
  by (simp add: init_store_def init_activities_def)

lemma remove1_split:
  "e \<in> set ps \<Longrightarrow> \<exists>xs ys. ps = xs @ e # ys \<and> e \<notin> set xs \<and> remove1 e ps = xs @ ys"
proof (induction ps)
  case Nil
  then show ?case by simp
next
  case (Cons p ps)
  show ?case
  proof (cases "p = e")
    case True
    then have "p # ps = [] @ e # ps \<and> e \<notin> set [] \<and> remove1 e (p # ps) = [] @ ps" by simp
    then show ?thesis by blast
  next
    case False
    with Cons.prems have "e \<in> set ps" by simp
    from Cons.IH [OF this] obtain xs ys
      where "ps = xs @ e # ys" "e \<notin> set xs" "remove1 e ps = xs @ ys" by blast
    with False have "p # ps = (p # xs) @ e # ys \<and> e \<notin> set (p # xs)
        \<and> remove1 e (p # ps) = (p # xs) @ ys" by auto
    then show ?thesis by blast
  qed
qed

lemma crowd_math:
  "activities (run crowd init_store) ''Math Club'' =
     Some \<lparr>description = ''Solve challenging problems and participate in math competitions'',
        schedule = ''Tuesdays, 3:30 PM - 4:30 PM'',
        max_participants = 10,
        participants = [''james@mergington.edu'', ''benjamin@mergington.edu'',
          ''s1@mergington.edu'', ''s2@mergington.edu'', ''s3@mergington.edu'',
          ''s4@mergington.edu'', ''s5@mergington.edu'', ''s6@mergington.edu'',
          ''s7@mergington.edu'', ''s8@mergington.edu'']\<rparr>"
  by (simp add: crowd_def signup_for_activity_def init_math)

lemma unregister_hit:
  assumes "activities s n = Some act" and "e \<in> set (participants act)"
  shows "unregister_from_activity n e s =
      (Inr (Message (''Unregistered '' @ e @ '' from '' @ n)),
       s\<lparr>activities := (activities s)(n \<mapsto>
            act\<lparr>participants := remove1 e (participants act)\<rparr>)\<rparr>)"
  using assms by (simp add: unregister_from_activity_def)

lemma unregister_split:
  assumes a: "activities s n = Some act" and m: "e \<in> set (participants act)"
  shows "\<exists>xs ys. participants act = xs @ e # ys \<and> e \<notin> set xs
         \<and> unregister_from_activity n e s =
             (Inr (Message (''Unregistered '' @ e @ '' from '' @ n)),
              s\<lparr>activities := (activities s)(n \<mapsto> act\<lparr>participants := xs @ ys\<rparr>)\<rparr>)
         \<and> (distinct (participants act) \<longrightarrow> e \<notin> set (xs @ ys))"
proof -
  from remove1_split [OF m] obtain xs ys where s1: "participants act = xs @ e # ys"
    and s2: "e \<notin> set xs" and s3: "remove1 e (participants act) = xs @ ys"
    by blast
  have d: "distinct (participants act) \<longrightarrow> e \<notin> set (xs @ ys)"
    by (simp add: s1 s2)
  have u: "unregister_from_activity n e s =
             (Inr (Message (''Unregistered '' @ e @ '' from '' @ n)),
              s\<lparr>activities := (activities s)(n \<mapsto> act\<lparr>participants := xs @ ys\<rparr>)\<rparr>)"
    by (simp only: unregister_hit [OF a m] s3)
  show ?thesis
    by (rule exI [of _ xs], rule exI [of _ ys]) (intro conjI s1 s2 u d)
qed

lemma unregister_unknown:
  "activities s n = None \<Longrightarrow>
     unregister_from_activity n e s = (Inl (HTTPException 404 ''Activity not found''), s)"
  by (simp add: unregister_from_activity_def)

lemma unregister_miss:
  "activities s n = Some act \<Longrightarrow> e \<notin> set (participants act) \<Longrightarrow>
     unregister_from_activity n e s =
       (Inl (HTTPException 400 ''Student is not signed up for this activity''), s)"
  by (simp add: unregister_from_activity_def)

lemma failure_of_simps:
  "failure_of (HTTPException 400 ''Invalid user type'') = Some InvalidCollection"
  "failure_of (HTTPException 400 ''User already exists'') = Some DuplicateUser"
  "failure_of (HTTPException 401 ''Invalid credentials'') = Some InvalidCredentials"
  "failure_of (HTTPException 401 ''Current password incorrect'') = Some InvalidCredentials"
  "failure_of (HTTPException 404 ''User not found'') = Some UserNotFound"
  "failure_of (HTTPException 404 ''Activity not found'') = Some ActivityNotFound"
  "failure_of (HTTPException 400 ''Student is already signed up'') = Some AlreadyRegistered"
  "failure_of (HTTPException 400 ''Student is not signed up for this activity'')
     = Some NotRegistered"
  by (simp_all add: failure_of_def)

lemma init_students: "users init_store ''students'' = Some Map.empty"
  by (simp add: init_store_def init_users_def)

lemma init_clubs: "users init_store ''clubs'' = Some Map.empty"
  by (simp add: init_store_def init_users_def)

lemma init_users_dom: "dom (users init_store) = {''students'', ''clubs''}"
  by (auto simp add: init_store_def init_users_def)

lemma getattr_name: "UserLogin_getattr d ''name'' = Inl (AttributeError ''name'')"
  by (simp add: UserLogin_getattr_def)

lemma alice_students:
  "users alice_store ''students'' =
     Some [''alice@mergington.edu'' \<mapsto>
       \<lparr>name = ''Alice'', password = ''old'', profile = \<lparr>pname = ''Alice'', bio = ''''\<rparr>\<rparr>]"
  by (simp add: alice_store_def alice_def register_user_def init_students)

lemma change_password_match:
  assumes "users s t = Some coll" and "coll e = Some usr" and "password usr = ul_password d"
  shows "change_password t e d s = (Inl (AttributeError ''name''), s)"
  using assms by (simp add: change_password_def getattr_name)

lemma change_password_mismatch:
  assumes "users s t = Some coll" and "coll e = Some usr" and "password usr \<noteq> ul_password d"
  shows "change_password t e d s = (Inl (HTTPException 401 ''Current password incorrect''), s)"
  using assms by (simp add: change_password_def)

lemma change_password_never_returns: "fst (change_password t e d s) \<noteq> Inr r"
  by (simp add: change_password_def getattr_name split: option.splits)

lemma register_fresh:
  assumes "users s t = Some coll" and "coll (ur_email u) = None"
  shows "register_user t u s =
      (Inr (Message (title t @ '' registered successfully'')),
       s\<lparr>users := (users s)(t \<mapsto> coll(ur_email u \<mapsto>
            \<lparr>name = ur_name u, password = ur_password u,
             profile = \<lparr>pname = ur_name u, bio = ''''\<rparr>\<rparr>))\<rparr>)"
  using assms by (simp add: register_user_def)

lemma register_present:
  assumes "users s t = Some coll" and "coll (ur_email u) = Some usr"
  shows "register_user t u s = (Inl (HTTPException 400 ''User already exists''), s)"
  using assms by (simp add: register_user_def)

lemma register_unknown:
  assumes "users s t = None"
  shows "register_user t u s = (Inl (HTTPException 400 ''Invalid user type''), s)"
  using assms by (simp add: register_user_def)

text \<open>No handler removes a user or a collection.\<close>

lemma exec_keeps_user:
  assumes "users s t = Some coll" and "coll e = Some usr"
  shows "\<exists>coll' usr'. users (snd (exec r s)) t = Some coll' \<and> coll' e = Some usr'"
proof (cases r)
  case (Register t' u)
  with assms show ?thesis
    by (auto simp add: register_user_def split: option.splits)
next
  case (Login t' c)
  with assms show ?thesis
    by (auto simp add: login_user_def split: option.splits)
next
  case (GetProfile t' e')
  with assms show ?thesis
    by (auto simp add: get_profile_def split: option.splits)
next
  case (UpdateProfile t' e' p)
  with assms show ?thesis
    by (auto simp add: update_profile_def Let_def split: option.splits)
next
  case (ChangePassword t' e' d)
  with assms show ?thesis
    by (auto simp add: change_password_def getattr_name split: option.splits)
next
  case ListActivities
  with assms show ?thesis by (simp add: get_activities_def)
next
  case (SignUp a e')
  with assms show ?thesis
    by (auto simp add: signup_for_activity_def split: option.splits)
next
  case (Unregister a e')
  with assms show ?thesis
    by (auto simp add: unregister_from_activity_def split: option.splits)
qed

lemma run_keeps_user:
  "users s t = Some coll \<Longrightarrow> coll e = Some usr \<Longrightarrow>
     \<exists>coll' usr'. users (run rs s) t = Some coll' \<and> coll' e = Some usr'"
proof (induction rs arbitrary: s coll usr)
  case Nil
  then show ?case by simp
next
  case (Cons r rs)
  from exec_keeps_user [OF Cons.prems, of r] obtain coll1 usr1
    where "users (snd (exec r s)) t = Some coll1" "coll1 e = Some usr1" by blast
  from Cons.IH [OF this] show ?case by simp
qed

lemma register_again:
  assumes c: "users s t = Some coll" and n: "coll (ur_email u) = None"
    and e: "ur_email u' = ur_email u"
  shows "register_user t u' (run rs (snd (register_user t u s)))
           = (Inl (HTTPException 400 ''User already exists''),
              run rs (snd (register_user t u s)))"
proof -
  let ?usr = "\<lparr>name = ur_name u, password = ur_password u,
               profile = \<lparr>pname = ur_name u, bio = ''''\<rparr>\<rparr>"
  have "users (snd (register_user t u s)) t = Some (coll(ur_email u \<mapsto> ?usr))"
    by (simp add: register_fresh [OF c n])
  moreover have "(coll(ur_email u \<mapsto> ?usr)) (ur_email u') = Some ?usr"
    by (simp add: e)
  ultimately obtain coll' usr'
    where "users (run rs (snd (register_user t u s))) t = Some coll'"
      and "coll' (ur_email u') = Some usr'"
    using run_keeps_user by blast
  then show ?thesis by (rule register_present)
qed

lemma register_other:
  assumes c: "users s t = Some coll" and n: "coll (ur_email u) = None"
    and d: "t' \<noteq> t" and c': "users s t' = Some coll'" and n': "coll' (ur_email u) = None"
  shows "fst (register_user t' u (snd (register_user t u s)))
           = Inr (Message (title t' @ '' registered successfully''))"
proof -
  have "users (snd (register_user t u s)) t' = Some coll'"
    using d c' by (simp add: register_fresh [OF c n])
  from register_fresh [OF this n'] show ?thesis by simp
qed

lemma update_keeps_name:
  assumes "users s t = Some coll" and "coll e = Some usr"
  shows "\<exists>coll' usr'. users (snd (update_profile t' e' p s)) t = Some coll'
          \<and> coll' e = Some usr' \<and> name usr' = name usr \<and> password usr' = password usr"
  using assms by (auto simp add: update_profile_def Let_def split: option.splits)

lemma run_updates_keep_name:
  "list_all update_request rs \<Longrightarrow> users s t = Some coll \<Longrightarrow> coll e = Some usr \<Longrightarrow>
     \<exists>coll' usr'. users (run rs s) t = Some coll' \<and> coll' e = Some usr'
        \<and> name usr' = name usr \<and> password usr' = password usr"
proof (induction rs arbitrary: s coll usr)
  case Nil
  then show ?case by simp
next
  case (Cons r rs)
  from Cons.prems(1) obtain t' e' p where r: "r = UpdateProfile t' e' p"
    by (cases r) simp_all
  from update_keeps_name [OF Cons.prems(2,3), of t' e' p] obtain coll1 usr1
    where 1: "users (snd (exec r s)) t = Some coll1" "coll1 e = Some usr1"
      and 2: "name usr1 = name usr" "password usr1 = password usr"
    using r by auto
  from Cons.prems(1) have "list_all update_request rs" by simp
  from Cons.IH [OF this 1] 2 show ?case by simp
qed

lemma alice_registers:
  "fst (register_user ''students'' alice init_store)
     = Inr (Message ''Students registered successfully'')"
  by (simp add: register_user_def init_students title_students)

lemma alice_renamed:
  "users (run rename_alice alice_store) ''students'' =
     Some [''alice@mergington.edu'' \<mapsto>
       \<lparr>name = ''Alice'', password = ''old'',
        profile = \<lparr>pname = ''Al'', bio = ''chess player''\<rparr>\<rparr>]"
  by (simp add: rename_alice_def update_profile_def set_fields_def Let_def alice_students)

lemma init_distinct: "activities init_store n = Some a \<Longrightarrow> distinct (participants a)"
  by (auto simp add: init_store_def init_activities_def split: if_splits)

lemma kept_order_append:
  assumes "e \<notin> set xs"
  shows "kept_order xs (xs @ [e])"
proof -
  have "filter (\<lambda>x. x \<in> set (xs @ [e])) xs = xs" by (simp add: filter_id_conv)
  moreover have "filter (\<lambda>y. y \<in> set xs) (xs @ [e]) = xs"
    using assms by (simp add: filter_id_conv)
  ultimately show ?thesis by (simp add: kept_order_def)
qed

lemma kept_order_remove1:
  assumes "distinct xs"
  shows "kept_order xs (remove1 e xs)"
proof -
  have r: "remove1 e xs = filter ((\<noteq>) e) xs"
    using assms by (simp add: distinct_remove1_removeAll removeAll_filter_not_eq)
  have s: "set (remove1 e xs) = set xs - {e}"
    using assms by simp
  have A: "filter (\<lambda>x. x \<in> set (remove1 e xs)) xs = filter ((\<noteq>) e) xs"
    by (rule filter_cong) (auto simp add: s)
  have B: "filter (\<lambda>y. y \<in> set xs) (remove1 e xs) = remove1 e xs"
    by (simp add: filter_id_conv s)
  show ?thesis
    unfolding kept_order_def A B by (rule r [symmetric])
qed

lemma run_append: "run (rs @ rs') s = run rs' (run rs s)"
  by (induction rs arbitrary: s) simp_all

lemma kept_order_refl: "kept_order xs xs"
  by (simp add: kept_order_def)

text \<open>What one request does to the participants of one activity.\<close>

lemma exec_participants:
  assumes "activities s n = Some a"
  shows "\<exists>a'. activities (snd (exec r s)) n = Some a'
     \<and> (participants a' = participants a
        \<or> (\<exists>e. e \<notin> set (participants a) \<and> participants a' = participants a @ [e])
        \<or> (\<exists>e. e \<in> set (participants a) \<and> participants a' = remove1 e (participants a)))"
proof (cases r)
  case (Register t u)
  with assms show ?thesis
    by (auto simp add: register_user_def split: option.splits)
next
  case (Login t c)
  with assms show ?thesis
    by (auto simp add: login_user_def split: option.splits)
next
  case (GetProfile t e')
  with assms show ?thesis
    by (auto simp add: get_profile_def split: option.splits)
next
  case (UpdateProfile t e' p)
  with assms show ?thesis
    by (auto simp add: update_profile_def Let_def split: option.splits)
next
  case (ChangePassword t e' d)
  with assms show ?thesis
    by (auto simp add: change_password_def getattr_name split: option.splits)
next
  case ListActivities
  with assms show ?thesis by (simp add: get_activities_def)
next
  case (SignUp m e')
  with assms show ?thesis
    by (auto simp add: signup_for_activity_def split: option.splits)
next
  case (Unregister m e')
  with assms show ?thesis
    by (auto simp add: unregister_from_activity_def split: option.splits)
qed

lemma exec_keeps_keys:
  "activities (snd (exec r s)) n = None \<longleftrightarrow> activities s n = None"
proof (cases "activities s n")
  case None
  then show ?thesis
    by (cases r)
      (auto simp add: register_user_def login_user_def get_profile_def update_profile_def
        change_password_def getattr_name get_activities_def signup_for_activity_def
        unregister_from_activity_def Let_def split: option.splits)
next
  case (Some a)
  with exec_participants [OF Some, of r] show ?thesis by auto
qed

lemma exec_keeps_distinct:
  assumes inv: "\<forall>n a. activities s n = Some a \<longrightarrow> distinct (participants a)"
  shows "\<forall>n a. activities (snd (exec r s)) n = Some a \<longrightarrow> distinct (participants a)"
proof (intro allI impI)
  fix n a' assume a': "activities (snd (exec r s)) n = Some a'"
  then have "activities s n \<noteq> None" using exec_keeps_keys [of r s n] by simp
  then obtain a where a: "activities s n = Some a" by blast
  with inv have d: "distinct (participants a)" by blast
  from exec_participants [OF a, of r] a'
  have "participants a' = participants a
        \<or> (\<exists>e. e \<notin> set (participants a) \<and> participants a' = participants a @ [e])
        \<or> (\<exists>e. e \<in> set (participants a) \<and> participants a' = remove1 e (participants a))"
    by simp
  with d show "distinct (participants a')" by auto
qed

lemma run_keeps_distinct:
  "\<forall>n a. activities s n = Some a \<longrightarrow> distinct (participants a) \<Longrightarrow>
     \<forall>n a. activities (run rs s) n = Some a \<longrightarrow> distinct (participants a)"
proof (induction rs arbitrary: s)
  case Nil
  then show ?case by simp
next
  case (Cons r rs)
  from Cons.IH [OF exec_keeps_distinct [OF Cons.prems, of r]] show ?case by simp
qed

lemma reachable_distinct:
  "activities (run rs init_store) n = Some a \<Longrightarrow> distinct (participants a)"
  using run_keeps_distinct [of init_store rs] init_distinct by blast

lemma exec_kept_order:
  assumes a: "activities s n = Some a" and d: "distinct (participants a)"
  shows "\<exists>a'. activities (snd (exec r s)) n = Some a'
            \<and> kept_order (participants a) (participants a')"
proof -
  from exec_participants [OF a, of r] obtain a'
    where a': "activities (snd (exec r s)) n = Some a'"
      and c: "participants a' = participants a
        \<or> (\<exists>e. e \<notin> set (participants a) \<and> participants a' = participants a @ [e])
        \<or> (\<exists>e. e \<in> set (participants a) \<and> participants a' = remove1 e (participants a))"
    by blast
  from c d have "kept_order (participants a) (participants a')"
    using kept_order_refl kept_order_append kept_order_remove1 by metis
  with a' show ?thesis by blast
qed

lemma swap_chess_state:
  "activities (run swap_chess init_store) ''Chess Club'' =
     Some \<lparr>description = ''Learn strategies and compete in chess tournaments'',
        schedule = ''Fridays, 3:30 PM - 5:00 PM'',
        max_participants = 12,
        participants = [''daniel@mergington.edu'', ''x@y.edu'']\<rparr>"
  by (simp add: swap_chess_def signup_for_activity_def unregister_from_activity_def init_chess)

text \<open>The collections of the store are fixed: no request adds or removes one.\<close>

lemma exec_users_dom: "dom (users (snd (exec r s))) = dom (users s)"
proof (cases r)
  case (Register t u)
  then show ?thesis
    by (auto simp add: register_user_def split: option.splits if_splits)
next
  case (Login t c)
  then show ?thesis
    by (auto simp add: login_user_def split: option.splits)
next
  case (GetProfile t e)
  then show ?thesis
    by (auto simp add: get_profile_def split: option.splits)
next
  case (UpdateProfile t e p)
  then show ?thesis
    by (auto simp add: update_profile_def Let_def split: option.splits if_splits)
next
  case (ChangePassword t e d)
  then show ?thesis
    by (auto simp add: change_password_def getattr_name split: option.splits)
next
  case ListActivities
  then show ?thesis by (simp add: get_activities_def)
next
  case (SignUp a e)
  then show ?thesis
    by (auto simp add: signup_for_activity_def split: option.splits)
next
  case (Unregister a e)
  then show ?thesis
    by (auto simp add: unregister_from_activity_def split: option.splits)
qed

lemma run_users_dom: "dom (users (run rs s)) = dom (users s)"
  by (induction rs arbitrary: s) (simp_all add: exec_users_dom)

lemma reachable_users_dom: "dom (users (run rs init_store)) = {''students'', ''clubs''}"
  by (simp add: run_users_dom init_users_dom)

text \<open>
  Every failure is one of the seven named ones, but for the \<^verbatim>\<open>AttributeError\<close> of
  \<open>change_password\<close>.
\<close>

lemma exec_errors_named:
  assumes "fst (exec r s) = Inl e"
  shows "failure_of e \<noteq> None \<or> e = AttributeError ''name''"
proof (cases r)
  case (Register t u)
  with assms show ?thesis
    by (auto simp add: register_user_def failure_of_def split: option.splits)
next
  case (Login t c)
  with assms show ?thesis
    by (auto simp add: login_user_def failure_of_def split: option.splits if_splits)
next
  case (GetProfile t e')
  with assms show ?thesis
    by (auto simp add: get_profile_def failure_of_def split: option.splits)
next
  case (UpdateProfile t e' p)
  with assms show ?thesis
    by (auto simp add: update_profile_def Let_def failure_of_def split: option.splits)
next
  case (ChangePassword t e' d)
  with assms show ?thesis
    by (auto simp add: change_password_def getattr_name failure_of_def
        split: option.splits if_splits)
next
  case ListActivities
  with assms show ?thesis by (simp add: get_activities_def)
next
  case (SignUp a e')
  with assms show ?thesis
    by (auto simp add: signup_for_activity_def failure_of_def split: option.splits if_splits)
next
  case (Unregister a e')
  with assms show ?thesis
    by (auto simp add: unregister_from_activity_def failure_of_def
        split: option.splits if_splits)
qed

section \<open>The activity roster\<close>

text \<open>
  Claim C1. For an activity of the roster and an email that is not in its participants
  list, \<open>signup_for_activity\<close> succeeds and appends the email whatever the length of the
  list is: the handler never reads \<open>max_participants\<close>, which the sign-up leaves as it
  was, and the list grows by one also when it is already as long as
  \<open>max_participants\<close> or longer.
\<close>

theorem signup_no_capacity_check:
  assumes "activities s n = Some act" and "e \<notin> set (participants act)"
  shows "fst (signup_for_activity n e s) = Inr (Message (''Signed up '' @ e @ '' for '' @ n))
     \<and> activities (snd (signup_for_activity n e s)) n
           = Some (act\<lparr>participants := participants act @ [e]\<rparr>)
     \<and> length (participants act @ [e]) = Suc (length (participants act))"
  using assms by (simp add: signup_for_activity_def)

text \<open>
  The Math Club after the eight sign-ups of \<open>crowd\<close> holds ten participants, its
  \<open>max_participants\<close>; the eleventh sign-up succeeds all the same.
\<close>

theorem signup_no_capacity_check_witness:
  "(\<exists>act. activities (run crowd init_store) ''Math Club'' = Some act
      \<and> ''late@mergington.edu'' \<notin> set (participants act)
      \<and> max_participants act \<le> int (length (participants act))
      \<and> fst (signup_for_activity ''Math Club'' ''late@mergington.edu'' (run crowd init_store))
          = Inr (Message ''Signed up late@mergington.edu for Math Club'')
      \<and> activities (snd (signup_for_activity ''Math Club'' ''late@mergington.edu''
            (run crowd init_store))) ''Math Club''
          = Some (act\<lparr>participants := participants act @ [''late@mergington.edu'']\<rparr>))"
  using signup_no_capacity_check [OF crowd_math, of "''late@mergington.edu''"]
  by (simp add: crowd_math)

text \<open>
  Claim C2. \<open>signup_for_activity\<close> raises 404 ``Activity not found''
  (ActivityNotFound) for a name that is not a key of \<open>activities\<close>; raises 400 ``Student
  is already signed up'' (AlreadyRegistered) for an email that is in the activity's
  participants; otherwise it appends the email at the end of the participants and
  returns the message \<open>Signed up {email} for {activity_name}\<close>. On both failures
  the store is the one before the call.
\<close>

theorem signup_cases:
  "(activities s n = None \<longrightarrow>
      signup_for_activity n e s = (Inl (HTTPException 404 ''Activity not found''), s)
      \<and> failure_of (HTTPException 404 ''Activity not found'') = Some ActivityNotFound)
   \<and> (\<forall>act. activities s n = Some act \<and> e \<in> set (participants act) \<longrightarrow>
      signup_for_activity n e s = (Inl (HTTPException 400 ''Student is already signed up''), s)
      \<and> failure_of (HTTPException 400 ''Student is already signed up'') = Some AlreadyRegistered)
   \<and> (\<forall>act. activities s n = Some act \<and> e \<notin> set (participants act) \<longrightarrow>
      signup_for_activity n e s =
        (Inr (Message (''Signed up '' @ e @ '' for '' @ n)),
         s\<lparr>activities := (activities s)(n \<mapsto> act\<lparr>participants := participants act @ [e]\<rparr>)\<rparr>))"
  by (simp add: signup_for_activity_def failure_of_def)

theorem signup_cases_witness:
  "signup_for_activity ''Knitting'' ''new@m.edu'' init_store
     = (Inl (HTTPException 404 ''Activity not found''), init_store)
   \<and> signup_for_activity ''Chess Club'' ''michael@mergington.edu'' init_store
     = (Inl (HTTPException 400 ''Student is already signed up''), init_store)
   \<and> fst (signup_for_activity ''Chess Club'' ''new@m.edu'' init_store)
     = Inr (Message ''Signed up new@m.edu for Chess Club'')
   \<and> fst (signup_for_activity ''Chess Club'' ''new@m.edu''
        (snd (signup_for_activity ''Chess Club'' ''new@m.edu'' init_store)))
     = Inl (HTTPException 400 ''Student is already signed up'')"
  using signup_cases [of init_store "''Knitting''" "''new@m.edu''"]
    signup_cases [of init_store "''Chess Club''" "''michael@mergington.edu''"]
    signup_cases [of init_store "''Chess Club''" "''new@m.edu''"]
    signup_cases [of "snd (signup_for_activity ''Chess Club'' ''new@m.edu'' init_store)"
       "''Chess Club''" "''new@m.edu''"]
  by (simp add: init_chess init_no_knitting)

text \<open>
  Claim C3. \<open>unregister_from_activity\<close> raises 404 ``Activity not found''
  (ActivityNotFound) for a name that is not a key of \<open>activities\<close>; raises 400 ``Student
  is not signed up for this activity'' (NotRegistered) for an email that is not in the
  activity's participants; otherwise the participants \<open>xs @ e # ys\<close>, with \<open>e\<close> not
  in \<open>xs\<close>, become \<open>xs @ ys\<close>: one entry is removed, the others keep their places, and
  the store changes nowhere else (the other activities and the users are untouched). It
  then returns the message \<open>Unregistered {email} from {activity_name}\<close>. Where the
  list had no duplicate, the email is gone from it.
\<close>

theorem unregister_cases:
  "(activities s n = None \<longrightarrow>
      unregister_from_activity n e s = (Inl (HTTPException 404 ''Activity not found''), s)
      \<and> failure_of (HTTPException 404 ''Activity not found'') = Some ActivityNotFound)
   \<and> (\<forall>act. activities s n = Some act \<and> e \<notin> set (participants act) \<longrightarrow>
      unregister_from_activity n e s =
        (Inl (HTTPException 400 ''Student is not signed up for this activity''), s)
      \<and> failure_of (HTTPException 400 ''Student is not signed up for this activity'')
          = Some NotRegistered)
   \<and> (\<forall>act. activities s n = Some act \<and> e \<in> set (participants act) \<longrightarrow>
      (\<exists>xs ys. participants act = xs @ e # ys \<and> e \<notin> set xs
         \<and> unregister_from_activity n e s =
             (Inr (Message (''Unregistered '' @ e @ '' from '' @ n)),
              s\<lparr>activities := (activities s)(n \<mapsto> act\<lparr>participants := xs @ ys\<rparr>)\<rparr>)
         \<and> (distinct (participants act) \<longrightarrow> e \<notin> set (xs @ ys))))"
proof (intro conjI allI impI)
  assume "activities s n = None"
  then show "unregister_from_activity n e s = (Inl (HTTPException 404 ''Activity not found''), s)"
    by (rule unregister_unknown)
next
  show "failure_of (HTTPException 404 ''Activity not found'') = Some ActivityNotFound"
    by (rule failure_of_simps)
next
  fix act assume "activities s n = Some act \<and> e \<notin> set (participants act)"
  then show "unregister_from_activity n e s =
        (Inl (HTTPException 400 ''Student is not signed up for this activity''), s)"
    using unregister_miss by blast
next
  show "failure_of (HTTPException 400 ''Student is not signed up for this activity'')
          = Some NotRegistered"
    by (rule failure_of_simps)
next
  fix act assume "activities s n = Some act \<and> e \<in> set (participants act)"
  then have "activities s n = Some act" and "e \<in> set (participants act)" by simp_all
  then show "\<exists>xs ys. participants act = xs @ e # ys \<and> e \<notin> set xs
         \<and> unregister_from_activity n e s =
             (Inr (Message (''Unregistered '' @ e @ '' from '' @ n)),
              s\<lparr>activities := (activities s)(n \<mapsto> act\<lparr>participants := xs @ ys\<rparr>)\<rparr>)
         \<and> (distinct (participants act) \<longrightarrow> e \<notin> set (xs @ ys))"
    by (rule unregister_split)
qed

theorem unregister_cases_witness:
  "unregister_from_activity ''Knitting'' ''new@m.edu'' init_store
     = (Inl (HTTPException 404 ''Activity not found''), init_store)
   \<and> unregister_from_activity ''Chess Club'' ''new@m.edu'' init_store
     = (Inl (HTTPException 400 ''Student is not signed up for this activity''), init_store)
   \<and> fst (unregister_from_activity ''Chess Club'' ''michael@mergington.edu'' init_store)
     = Inr (Message ''Unregistered michael@mergington.edu from Chess Club'')
   \<and> (\<exists>act. activities (snd (unregister_from_activity ''Chess Club''
          ''michael@mergington.edu'' init_store)) ''Chess Club'' = Some act
        \<and> participants act = [''daniel@mergington.edu''])"
  using unregister_cases [of init_store "''Knitting''" "''new@m.edu''"]
    unregister_cases [of init_store "''Chess Club''" "''new@m.edu''"]
    unregister_cases [of init_store "''Chess Club''" "''michael@mergington.edu''"]
  by (auto simp add: init_chess init_no_knitting Cons_eq_append_conv)

text \<open>
  Claim C8. In every store reached from the initial store by sign-ups and
  unregistrations, the participants of each activity hold each email at most once; and
  whatever sign-up or unregistration comes next, the activity is still there, its
  participants are again free of duplicates, and the entries common to the list before
  and the list after stand in the same order in both.
\<close>

theorem roster_invariant:
  assumes "list_all roster_request rs" and "activities (run rs init_store) n = Some a"
  shows "distinct (participants a)
     \<and> (\<forall>r. roster_request r \<longrightarrow>
          (\<exists>a'. activities (snd (exec r (run rs init_store))) n = Some a'
             \<and> distinct (participants a')
             \<and> kept_order (participants a) (participants a')))"
proof (intro conjI allI impI)
  show d: "distinct (participants a)"
    using assms(2) by (rule reachable_distinct)
  fix r
  from exec_kept_order [OF assms(2) d, of r] obtain a'
    where a': "activities (snd (exec r (run rs init_store))) n = Some a'"
      and k: "kept_order (participants a) (participants a')"
    by blast
  have "snd (exec r (run rs init_store)) = run (rs @ [r]) init_store"
    by (simp add: run_append)
  then show "\<exists>a'. activities (snd (exec r (run rs init_store))) n = Some a'
             \<and> distinct (participants a')
             \<and> kept_order (participants a) (participants a')"
    using a' k reachable_distinct by metis
qed

text \<open>
  After \<open>x@y.edu\<close> has signed up for the Chess Club and Michael has left it, the list is
  Daniel, \<open>x@y.edu\<close>; Daniel leaving keeps the order of what remains.
\<close>

theorem roster_invariant_witness:
  "list_all roster_request swap_chess
   \<and> (\<exists>a. activities (run swap_chess init_store) ''Chess Club'' = Some a
        \<and> participants a = [''daniel@mergington.edu'', ''x@y.edu'']
        \<and> distinct (participants a)
        \<and> (\<exists>a'. activities (snd (exec (Unregister ''Chess Club'' ''daniel@mergington.edu'')
                     (run swap_chess init_store))) ''Chess Club'' = Some a'
              \<and> distinct (participants a')
              \<and> kept_order (participants a) (participants a')))"
proof -
  have l: "list_all roster_request swap_chess" by (simp add: swap_chess_def)
  have r: "roster_request (Unregister ''Chess Club'' ''daniel@mergington.edu'')" by simp
  note t = roster_invariant [OF l swap_chess_state]
  from t [THEN conjunct2, rule_format, OF r] t [THEN conjunct1] l swap_chess_state
  show ?thesis by simp
qed

section \<open>The account store\<close>

text \<open>
  Claim C4. With a current password that differs from the stored one,
  \<open>change_password\<close> raises 401 ``Current password incorrect'' (lemma
  \<open>change_password_mismatch\<close>). With the matching one it does not overwrite the password
  and returns nothing: its parameter is a \<^verbatim>\<open>UserLogin\<close>, which has no \<^verbatim>\<open>name\<close>, so
  \<^verbatim>\<open>data.name\<close> raises \<^verbatim>\<open>AttributeError\<close> before the assignment (lemma
  \<open>change_password_match\<close>; no call ever returns, lemma
  \<open>change_password_never_returns\<close>). Evaluated for the student Alice, registered with
  the password \<open>old\<close>, who supplies \<open>old\<close>: the handler raises, and the stored
  password is still \<open>old\<close>.
\<close>

theorem change_password_at_match:
  "change_password ''students'' ''alice@mergington.edu''
      \<lparr>ul_email = ''alice@mergington.edu'', ul_password = ''old''\<rparr> alice_store
    = (Inl (AttributeError ''name''), alice_store)
   \<and> (\<exists>coll usr. users alice_store ''students'' = Some coll
        \<and> coll ''alice@mergington.edu'' = Some usr \<and> password usr = ''old'')"
  by (simp add: change_password_match [OF alice_students] alice_students)

text \<open>
  Claim C5. In a store whose collections are \<open>students\<close> and \<open>clubs\<close>:
  \<open>register_user\<close> raises 400 ``Invalid user type'' (InvalidCollection) for any other
  collection name; raises 400 ``User already exists'' (DuplicateUser) for an email that
  the collection holds; otherwise it succeeds and inserts the record with the supplied
  name and password and the profile \<open>{name: the supplied name, bio: ""}\<close>. After a
  successful registration, registering the same email in the same collection fails with
  DuplicateUser, also after any further requests, and registering it in the other
  collection succeeds if that collection does not hold it.
\<close>

theorem register_user_cases:
  assumes wf: "dom (users s) = {''students'', ''clubs''}"
  shows "(t \<notin> {''students'', ''clubs''} \<longrightarrow>
            register_user t u s = (Inl (HTTPException 400 ''Invalid user type''), s))
     \<and> (t \<in> {''students'', ''clubs''} \<longrightarrow> users s t \<noteq> None)
     \<and> (\<forall>coll usr. users s t = Some coll \<and> coll (ur_email u) = Some usr \<longrightarrow>
            register_user t u s = (Inl (HTTPException 400 ''User already exists''), s))
     \<and> (\<forall>coll. users s t = Some coll \<and> coll (ur_email u) = None \<longrightarrow>
            register_user t u s =
              (Inr (Message (title t @ '' registered successfully'')),
               s\<lparr>users := (users s)(t \<mapsto> coll(ur_email u \<mapsto>
                    \<lparr>name = ur_name u, password = ur_password u,
                     profile = \<lparr>pname = ur_name u, bio = ''''\<rparr>\<rparr>))\<rparr>)
            \<and> (\<forall>rs u'. ur_email u' = ur_email u \<longrightarrow>
                  register_user t u' (run rs (snd (register_user t u s)))
                    = (Inl (HTTPException 400 ''User already exists''),
                       run rs (snd (register_user t u s))))
            \<and> (\<forall>t' coll'. t' \<noteq> t \<and> users s t' = Some coll'
                   \<and> coll' (ur_email u) = None \<longrightarrow>
                  fst (register_user t' u (snd (register_user t u s)))
                    = Inr (Message (title t' @ '' registered successfully''))))
     \<and> failure_of (HTTPException 400 ''Invalid user type'') = Some InvalidCollection
     \<and> failure_of (HTTPException 400 ''User already exists'') = Some DuplicateUser"
proof (intro conjI allI impI)
  assume "t \<notin> {''students'', ''clubs''}"
  with wf have "users s t = None" by blast
  then show "register_user t u s = (Inl (HTTPException 400 ''Invalid user type''), s)"
    by (rule register_unknown)
next
  assume "t \<in> {''students'', ''clubs''}"
  with wf show "users s t \<noteq> None" by blast
next
  fix coll usr assume "users s t = Some coll \<and> coll (ur_email u) = Some usr"
  then show "register_user t u s = (Inl (HTTPException 400 ''User already exists''), s)"
    using register_present by blast
next
  fix coll assume "users s t = Some coll \<and> coll (ur_email u) = None"
  then show "register_user t u s =
              (Inr (Message (title t @ '' registered successfully'')),
               s\<lparr>users := (users s)(t \<mapsto> coll(ur_email u \<mapsto>
                    \<lparr>name = ur_name u, password = ur_password u,
                     profile = \<lparr>pname = ur_name u, bio = ''''\<rparr>\<rparr>))\<rparr>)"
    using register_fresh by blast
next
  fix coll rs and u' :: UserRegister
  assume "users s t = Some coll \<and> coll (ur_email u) = None" and "ur_email u' = ur_email u"
  then show "register_user t u' (run rs (snd (register_user t u s)))
                    = (Inl (HTTPException 400 ''User already exists''),
                       run rs (snd (register_user t u s)))"
    using register_again by blast
next
  fix coll t' coll'
  assume "users s t = Some coll \<and> coll (ur_email u) = None"
    and "t' \<noteq> t \<and> users s t' = Some coll' \<and> coll' (ur_email u) = None"
  then show "fst (register_user t' u (snd (register_user t u s)))
                    = Inr (Message (title t' @ '' registered successfully''))"
    using register_other by blast
next
  show "failure_of (HTTPException 400 ''Invalid user type'') = Some InvalidCollection"
    by (simp add: failure_of_def)
next
  show "failure_of (HTTPException 400 ''User already exists'') = Some DuplicateUser"
    by (simp add: failure_of_def)
qed

text \<open>
  On the initial store: \<open>teachers\<close> is refused, Alice registers as a student, cannot
  register as a student again, and registers as a club with the same email.
\<close>

theorem register_user_cases_witness:
  "dom (users init_store) = {''students'', ''clubs''}
   \<and> register_user ''teachers'' alice init_store
       = (Inl (HTTPException 400 ''Invalid user type''), init_store)
   \<and> fst (register_user ''students'' alice init_store)
       = Inr (Message ''Students registered successfully'')
   \<and> users alice_store ''students'' =
       Some [''alice@mergington.edu'' \<mapsto>
         \<lparr>name = ''Alice'', password = ''old'', profile = \<lparr>pname = ''Alice'', bio = ''''\<rparr>\<rparr>]
   \<and> register_user ''students'' alice alice_store
       = (Inl (HTTPException 400 ''User already exists''), alice_store)
   \<and> fst (register_user ''clubs'' alice alice_store)
       = Inr (Message ''Clubs registered successfully'')"
proof -
  note a = register_user_cases [OF init_users_dom, of "''teachers''" alice, THEN conjunct1]
  have none: "Map.empty (ur_email alice) = (None :: user option)" by simp
  note b = register_user_cases [OF init_users_dom, of "''students''" alice,
      THEN conjunct2, THEN conjunct2, THEN conjunct2, THEN conjunct1, rule_format,
      OF conjI [OF init_students none]]
  from a have 1: "register_user ''teachers'' alice init_store
       = (Inl (HTTPException 400 ''Invalid user type''), init_store)"
    by simp
  from b [THEN conjunct1] have 2: "fst (register_user ''students'' alice init_store)
       = Inr (Message ''Students registered successfully'')"
    by (simp add: title_students)
  from b [THEN conjunct2, THEN conjunct1, rule_format, of alice "[]"]
  have 3: "register_user ''students'' alice alice_store
       = (Inl (HTTPException 400 ''User already exists''), alice_store)"
    by (simp add: alice_store_def)
  have "''clubs'' \<noteq> ''students'' \<and> users init_store ''clubs'' = Some Map.empty
          \<and> Map.empty (ur_email alice) = (None :: user option)"
    by (simp add: init_clubs)
  from b [THEN conjunct2, THEN conjunct2, rule_format, OF this]
  have 4: "fst (register_user ''clubs'' alice alice_store)
       = Inr (Message ''Clubs registered successfully'')"
    by (simp add: alice_store_def title_clubs)
  show ?thesis
    by (intro conjI init_users_dom 1 2 alice_students 3 4)
qed

text \<open>
  Claim C6. For a collection of the store, \<open>login_user\<close> succeeds if and only if the
  email is in the collection and the supplied password equals the stored one; it then
  returns the stored profile. An unknown email and a different password both raise 401
  ``Invalid credentials'' (InvalidCredentials). The store is unchanged in every case.
\<close>

theorem login_user_iff:
  assumes c: "users s t = Some coll"
  shows "((\<exists>r. fst (login_user t cr s) = Inr r) \<longleftrightarrow>
            (\<exists>usr. coll (ul_email cr) = Some usr \<and> password usr = ul_password cr))
     \<and> (\<forall>usr. coll (ul_email cr) = Some usr \<and> password usr = ul_password cr \<longrightarrow>
            login_user t cr s =
              (Inr (MessageProfile (title t @ '' logged in'') (profile usr)), s))
     \<and> (coll (ul_email cr) = None \<longrightarrow>
            login_user t cr s = (Inl (HTTPException 401 ''Invalid credentials''), s))
     \<and> (\<forall>usr. coll (ul_email cr) = Some usr \<and> password usr \<noteq> ul_password cr \<longrightarrow>
            login_user t cr s = (Inl (HTTPException 401 ''Invalid credentials''), s))
     \<and> failure_of (HTTPException 401 ''Invalid credentials'') = Some InvalidCredentials"
proof (intro conjI allI impI)
  show "(\<exists>r. fst (login_user t cr s) = Inr r) \<longleftrightarrow>
          (\<exists>usr. coll (ul_email cr) = Some usr \<and> password usr = ul_password cr)"
    using c by (cases "coll (ul_email cr)") (simp_all add: login_user_def)
next
  fix usr assume "coll (ul_email cr) = Some usr \<and> password usr = ul_password cr"
  with c show "login_user t cr s =
      (Inr (MessageProfile (title t @ '' logged in'') (profile usr)), s)"
    by (simp add: login_user_def)
next
  assume "coll (ul_email cr) = None"
  with c show "login_user t cr s = (Inl (HTTPException 401 ''Invalid credentials''), s)"
    by (simp add: login_user_def)
next
  fix usr assume "coll (ul_email cr) = Some usr \<and> password usr \<noteq> ul_password cr"
  with c show "login_user t cr s = (Inl (HTTPException 401 ''Invalid credentials''), s)"
    by (simp add: login_user_def)
next
  show "failure_of (HTTPException 401 ''Invalid credentials'') = Some InvalidCredentials"
    by (simp add: failure_of_def)
qed

text \<open>
  Alice logs in with \<open>old\<close>, not with \<open>Old\<close>; Bob, who is not registered, does not.
\<close>

theorem login_user_iff_witness:
  "login_user ''students'' \<lparr>ul_email = ''alice@mergington.edu'', ul_password = ''old''\<rparr>
       alice_store
     = (Inr (MessageProfile ''Students logged in'' \<lparr>pname = ''Alice'', bio = ''''\<rparr>),
        alice_store)
   \<and> login_user ''students'' \<lparr>ul_email = ''alice@mergington.edu'', ul_password = ''Old''\<rparr>
       alice_store
     = (Inl (HTTPException 401 ''Invalid credentials''), alice_store)
   \<and> login_user ''students'' \<lparr>ul_email = ''bob@mergington.edu'', ul_password = ''old''\<rparr>
       alice_store
     = (Inl (HTTPException 401 ''Invalid credentials''), alice_store)"
  using login_user_iff [OF alice_students,
      of "\<lparr>ul_email = ''alice@mergington.edu'', ul_password = ''old''\<rparr>"]
    login_user_iff [OF alice_students,
      of "\<lparr>ul_email = ''alice@mergington.edu'', ul_password = ''Old''\<rparr>"]
    login_user_iff [OF alice_students,
      of "\<lparr>ul_email = ''bob@mergington.edu'', ul_password = ''old''\<rparr>"]
  by (simp add: title_students)

text \<open>
  Claim C7. For a registered email, \<open>update_profile\<close> succeeds, stores a profile \<open>q\<close>
  and returns that same \<open>q\<close>; the name of \<open>q\<close> is the supplied name, or the old name
  when none is supplied, and the bio of \<open>q\<close> is the supplied bio, or the old bio when
  none is supplied. Nothing else in the store changes.
\<close>

theorem update_profile_fields:
  assumes c: "users s t = Some coll" and u: "coll e = Some usr"
  shows "\<exists>q. update_profile t e p s =
           (Inr (MessageProfile ''Profile updated'' q),
            s\<lparr>users := (users s)(t \<mapsto> coll(e \<mapsto> usr\<lparr>profile := q\<rparr>))\<rparr>)
     \<and> pname q = (case up_name p of None \<Rightarrow> pname (profile usr) | Some n \<Rightarrow> n)
     \<and> bio q = (case up_bio p of None \<Rightarrow> bio (profile usr) | Some b \<Rightarrow> b)"
proof (intro exI conjI)
  show "update_profile t e p s =
           (Inr (MessageProfile ''Profile updated'' (set_fields p (profile usr))),
            s\<lparr>users := (users s)(t \<mapsto> coll(e \<mapsto> usr\<lparr>profile := set_fields p (profile usr)\<rparr>))\<rparr>)"
    using c u by (simp add: update_profile_def Let_def)
  show "pname (set_fields p (profile usr))
          = (case up_name p of None \<Rightarrow> pname (profile usr) | Some n \<Rightarrow> n)"
    by (simp add: set_fields_def Let_def split: option.splits)
  show "bio (set_fields p (profile usr))
          = (case up_bio p of None \<Rightarrow> bio (profile usr) | Some b \<Rightarrow> b)"
    by (simp add: set_fields_def Let_def split: option.splits)
qed

theorem update_profile_fields_witness:
  "(\<exists>q. fst (update_profile ''students'' ''alice@mergington.edu''
            \<lparr>up_name = None, up_bio = Some ''chess player''\<rparr> alice_store)
          = Inr (MessageProfile ''Profile updated'' q)
        \<and> pname q = ''Alice'' \<and> bio q = ''chess player'')
   \<and> (\<exists>q. fst (update_profile ''students'' ''alice@mergington.edu''
            \<lparr>up_name = Some ''Al'', up_bio = None\<rparr> alice_store)
          = Inr (MessageProfile ''Profile updated'' q)
        \<and> pname q = ''Al'' \<and> bio q = '''')"
  using update_profile_fields [OF alice_students,
      of "''alice@mergington.edu''" _ "\<lparr>up_name = None, up_bio = Some ''chess player''\<rparr>"]
    update_profile_fields [OF alice_students,
      of "''alice@mergington.edu''" _ "\<lparr>up_name = Some ''Al'', up_bio = None\<rparr>"]
  by auto

text \<open>
  Claim C9. Whenever a request fails, whatever it raises, the store it leaves (users and
  activities) is the store before the call.
\<close>

theorem exec_failure_keeps_store:
  assumes "fst (exec r s) = Inl e"
  shows "snd (exec r s) = s"
proof (cases r)
  case (Register t u)
  with assms show ?thesis
    by (auto simp add: register_user_def split: option.splits)
next
  case (Login t c)
  with assms show ?thesis
    by (auto simp add: login_user_def split: option.splits)
next
  case (GetProfile t e')
  with assms show ?thesis
    by (auto simp add: get_profile_def split: option.splits)
next
  case (UpdateProfile t e' p)
  with assms show ?thesis
    by (auto simp add: update_profile_def Let_def split: option.splits)
next
  case (ChangePassword t e' d)
  with assms show ?thesis
    by (auto simp add: change_password_def getattr_name split: option.splits)
next
  case ListActivities
  with assms show ?thesis by (simp add: get_activities_def)
next
  case (SignUp a e')
  with assms show ?thesis
    by (auto simp add: signup_for_activity_def split: option.splits if_splits)
next
  case (Unregister a e')
  with assms show ?thesis
    by (auto simp add: unregister_from_activity_def split: option.splits if_splits)
qed

theorem exec_failure_keeps_store_witness:
  "fst (exec (SignUp ''Knitting'' ''new@m.edu'') init_store)
      = Inl (HTTPException 404 ''Activity not found'')
   \<and> snd (exec (SignUp ''Knitting'' ''new@m.edu'') init_store) = init_store
   \<and> fst (exec (Register ''students'' alice) alice_store)
      = Inl (HTTPException 400 ''User already exists'')
   \<and> snd (exec (Register ''students'' alice) alice_store) = alice_store"
proof -
  have 1: "fst (exec (SignUp ''Knitting'' ''new@m.edu'') init_store)
      = Inl (HTTPException 404 ''Activity not found'')"
    by (simp add: signup_for_activity_def init_no_knitting)
  have 2: "fst (exec (Register ''students'' alice) alice_store)
      = Inl (HTTPException 400 ''User already exists'')"
    by (simp add: register_user_def alice_students alice_def)
  show ?thesis
    by (intro conjI 1 2 exec_failure_keeps_store [OF 1] exec_failure_keeps_store [OF 2])
qed

text \<open>
  Claim C10. \<open>update_profile\<close> writes the nested profile only: after a successful
  registration and any sequence of profile updates (of this or any other user), the
  record of the registered email is still there and its top-level name is the name
  supplied at registration.
\<close>

theorem update_profile_keeps_top_name:
  assumes ok: "fst (register_user t u s) = Inr r" and ups: "list_all update_request rs"
  shows "\<exists>coll usr. users (run rs (snd (register_user t u s))) t = Some coll
           \<and> coll (ur_email u) = Some usr \<and> name usr = ur_name u"
proof -
  from ok obtain coll where c: "users s t = Some coll" and n: "coll (ur_email u) = None"
    by (auto simp add: register_user_def split: option.splits)
  let ?usr = "\<lparr>name = ur_name u, password = ur_password u,
               profile = \<lparr>pname = ur_name u, bio = ''''\<rparr>\<rparr>"
  have "users (snd (register_user t u s)) t = Some (coll(ur_email u \<mapsto> ?usr))"
    by (simp add: register_fresh [OF c n])
  moreover have "(coll(ur_email u \<mapsto> ?usr)) (ur_email u) = Some ?usr" by simp
  ultimately obtain coll' usr' where "users (run rs (snd (register_user t u s))) t = Some coll'"
    and "coll' (ur_email u) = Some usr'" and "name usr' = name ?usr"
    using run_updates_keep_name [OF ups] by blast
  then show ?thesis by simp
qed

text \<open>
  Alice changes her profile name to \<open>Al\<close>; the top-level name of her record is still
  \<open>Alice\<close>.
\<close>

theorem update_profile_keeps_top_name_witness:
  "fst (register_user ''students'' alice init_store)
     = Inr (Message ''Students registered successfully'')
   \<and> list_all update_request rename_alice
   \<and> (\<exists>coll usr. users (run rename_alice (snd (register_user ''students'' alice init_store)))
          ''students'' = Some coll
        \<and> coll (ur_email alice) = Some usr \<and> name usr = ur_name alice
        \<and> name usr = ''Alice'' \<and> pname (profile usr) = ''Al'')"
proof -
  have ups: "list_all update_request rename_alice" by (simp add: rename_alice_def)
  from update_profile_keeps_top_name [OF alice_registers ups]
  obtain coll usr
    where 1: "users (run rename_alice (snd (register_user ''students'' alice init_store)))
          ''students'' = Some coll"
      and 2: "coll (ur_email alice) = Some usr" and 3: "name usr = ur_name alice"
    by blast
  from 1 have "coll = [''alice@mergington.edu'' \<mapsto>
       \<lparr>name = ''Alice'', password = ''old'',
        profile = \<lparr>pname = ''Al'', bio = ''chess player''\<rparr>\<rparr>]"
    using alice_renamed by (simp add: alice_store_def)
  with 2 have 4: "name usr = ''Alice'' \<and> pname (profile usr) = ''Al''"
    by (auto simp add: alice_def)
  show ?thesis
    using alice_registers ups 1 2 3 4 by blast
qed

end
